theory Spec2Isabelle
  imports Main
begin

section \<open>JavaScript values and exceptions\<close>

text \<open>
  The values the script handles: configuration entries, parsed JSON bodies and the
  arguments handed from one waterfall task to the next. A JSON number is kept as an
  integer (only its truthiness is ever inspected); \<open>JFunc\<close> is a function value,
  named for readability. An object is the list of its own properties, each key once, as
  \<open>JSON.parse\<close> delivers it.
\<close>

datatype jsval =
    JUndefined
  | JNull
  | JBool bool
  | JNum int
  | JStr string
  | JArr "jsval list"
  | JObj "(string \<times> jsval) list"
  | JFunc string

datatype exn = TypeError | SyntaxError | PlainError | ENOENT | ENOTDIR | EEXIST

text \<open>Truthiness, as tested by \<open>if (v)\<close>, \<open>!v\<close> and \<open>v ? a : b\<close>.\<close>

fun truthy :: "jsval \<Rightarrow> bool" where
  "truthy JUndefined = False"
| "truthy JNull = False"
| "truthy (JBool b) = b"
| "truthy (JNum n) = (n \<noteq> 0)"
| "truthy (JStr s) = (s \<noteq> [])"
| "truthy (JArr xs) = True"
| "truthy (JObj kvs) = True"
| "truthy (JFunc f) = True"

text \<open>
  Property read \<open>v.k\<close> for the keys the script reads (\<open>result\<close>, \<open>number\<close>,
  \<open>sys_id\<close>): a TypeError on \<open>undefined\<close> and \<open>null\<close>, the stored value on an object
  that has the key, \<open>undefined\<close> everywhere else.
\<close>

fun get_prop :: "jsval \<Rightarrow> string \<Rightarrow> exn + jsval" where
  "get_prop JUndefined k = Inl TypeError"
| "get_prop JNull k = Inl TypeError"
| "get_prop (JObj kvs) k = Inr (case map_of kvs k of None \<Rightarrow> JUndefined | Some v \<Rightarrow> v)"
| "get_prop v k = Inr JUndefined"

text \<open>The n-th actual argument of a call; a missing argument reads as \<open>undefined\<close>.\<close>

definition arg :: "jsval list \<Rightarrow> nat \<Rightarrow> jsval" where
  "arg args n = (if n < length args then args ! n else JUndefined)"


section \<open>cleanFileName\<close>

text \<open>
  \<open>s.replace(/[C]/g, "")\<close> for a regular expression that is one character class:
  every character of the class is replaced by the empty string, all others stay, in order.
  A string is a list of code units; units above \<open>0x7F\<close> are the non-ASCII ones.
\<close>

fun replace_g :: "(char \<Rightarrow> bool) \<Rightarrow> string \<Rightarrow> string" where
  "replace_g cls [] = []"
| "replace_g cls (c # cs) = (if cls c then replace_g cls cs else c # replace_g cls cs)"

text \<open>The class \<open>[|&;$%@"<>()+,*]\<close>; the double quote is code \<open>0x22\<close>.\<close>

definition denylist :: "char list" where
  "denylist = [CHR ''|'', CHR ''&'', CHR '';'', CHR ''$'', CHR ''%'', CHR ''@'', CHR 0x22,
               CHR ''<'', CHR ''>'', CHR ''('', CHR '')'', CHR ''+'', CHR '','', CHR ''*'']"

definition in_denylist :: "char \<Rightarrow> bool" where
  "in_denylist c = (c \<in> set denylist)"

text \<open>The class \<open>[^\x00-\x7F]\<close>.\<close>

definition non_ascii :: "char \<Rightarrow> bool" where
  "non_ascii c = (\<not> (of_char c :: nat) \<le> 0x7F)"

definition cleanFileName :: "string \<Rightarrow> string" where
  "cleanFileName filename =
     (let newFn = replace_g in_denylist filename;
          newFn = replace_g non_ascii newFn
      in newFn)"


section \<open>Decimal numerals\<close>

text \<open>
  The string that \<open>'[' + x + ']'\<close> puts between the brackets: the decimal digits of the
  counter \<open>x\<close>, which starts at 1 and grows by 1 (a natural number here).
\<close>

definition digit_char :: "nat \<Rightarrow> char" where
  "digit_char d = char_of (48 + d)"

fun show_nat :: "nat \<Rightarrow> string" where
  "show_nat n = (if n < 10 then [digit_char n]
                 else show_nat (n div 10) @ [digit_char (n mod 10)])"

declare show_nat.simps [simp del]


section \<open>The path module and the file system\<close>

text \<open>
  The functions of Node's \<open>path\<close> module that the script calls, and the constant
  \<open>path.sep\<close>; with them \<open>path.resolve(wd, p)\<close>, by which the \<open>fs\<close> module reads a
  relative path \<open>p\<close> against the working directory \<open>wd\<close>. They belong to the platform,
  so the model takes them as a parameter; every theorem below with a variable \<open>P\<close> holds
  for any choice of them.
\<close>

record path_ops =
  path_join :: "string \<Rightarrow> string \<Rightarrow> string"
  path_resolve :: "string \<Rightarrow> string \<Rightarrow> string"
  path_dirname :: "string \<Rightarrow> string"
  path_basename :: "string \<Rightarrow> string \<Rightarrow> string"
  path_extname :: "string \<Rightarrow> string"
  path_sep :: string

text \<open>\<open>path.join(a, b)\<close> on arbitrary values: a TypeError unless both are strings.\<close>

definition js_path_join :: "path_ops \<Rightarrow> jsval \<Rightarrow> jsval \<Rightarrow> exn + string" where
  "js_path_join P a b =
     (case a of
        JStr x \<Rightarrow> (case b of JStr y \<Rightarrow> Inr (path_join P x y) | _ \<Rightarrow> Inl TypeError)
      | _ \<Rightarrow> Inl TypeError)"

text \<open>
  The file system: the directories and the regular files that exist, each under the
  path string by which the script names it.
\<close>

record filesys =
  dirs :: "string list"
  files :: "string list"

definition existsSync :: "filesys \<Rightarrow> string \<Rightarrow> bool" where
  "existsSync fs p = (p \<in> set (dirs fs) \<or> p \<in> set (files fs))"

text \<open>
  \<open>fs.mkdirSync(p)\<close> with no options creates one directory, inside an existing one:
  it throws EEXIST when the path exists, ENOTDIR when the parent is a regular file and
  ENOENT when the parent does not exist.
\<close>

definition mkdirSync :: "path_ops \<Rightarrow> filesys \<Rightarrow> string \<Rightarrow> exn + filesys" where
  "mkdirSync P fs p =
     (if existsSync fs p then Inl EEXIST
      else if path_dirname P p \<in> set (dirs fs) then Inr (fs\<lparr>dirs := p # dirs fs\<rparr>)
      else if path_dirname P p \<in> set (files fs) then Inl ENOTDIR
      else Inl ENOENT)"

text \<open>
  \<open>fs.createWriteStream(p)\<close> opens \<open>p\<close> for writing, \<open>p\<close> read against the working
  directory \<open>wd\<close>. When the directory of that path exists the file comes into being, and
  it is kept under the name \<open>p\<close> by which the script asks for it afterwards. Otherwise
  the open fails (ENOENT for a missing directory) and the stream emits \<open>error\<close>; the
  script listens for no such event, so the error is thrown.
\<close>

definition createWriteStream :: "path_ops \<Rightarrow> string \<Rightarrow> filesys \<Rightarrow> string \<Rightarrow> exn + filesys" where
  "createWriteStream P wd fs p =
     (if path_dirname P (path_resolve P wd p) \<in> set (dirs fs)
      then Inr (fs\<lparr>files := p # files fs\<rparr>)
      else if path_dirname P (path_resolve P wd p) \<in> set (files fs) then Inl ENOTDIR
      else Inl ENOENT)"


section \<open>AttachmentHandler: directories and unique paths\<close>

record att =
  sys_id :: string
  file_name :: string
  table_name :: string
  table_sys_id :: string

text \<open>\<open>createDirectorySync(dir)\<close>; \<open>base\<close> is \<open>__dirname\<close>.\<close>

definition createDirectorySync :: "path_ops \<Rightarrow> string \<Rightarrow> filesys \<Rightarrow> string \<Rightarrow> exn + filesys" where
  "createDirectorySync P base fs dir =
     (let dirName = path_join P base dir
      in if \<not> existsSync fs dirName then mkdirSync P fs dirName else Inr fs)"

text \<open>The candidate built in one round of the loop of \<open>getUniquePath\<close>.\<close>

definition newDirPath :: "path_ops \<Rightarrow> string \<Rightarrow> nat \<Rightarrow> string" where
  "newDirPath P dirPath x =
     (let ext = path_extname P dirPath;
          dirname = path_dirname P dirPath;
          filename = path_basename P dirPath ext
      in dirname @ path_sep P @ filename @ ''['' @ show_nat x @ '']'' @ ext)"


text \<open>
  The \<open>while\<close> loop of \<open>getUniquePath\<close>, entered with the counter \<open>x\<close>. It ends
  because the candidates of different rounds are different strings and only finitely many
  paths exist; the lemmas before the definition are what the termination
  proof needs.
\<close>

lemma digit_char_inj: "a < 10 \<Longrightarrow> b < 10 \<Longrightarrow> digit_char a = digit_char b \<Longrightarrow> a = b"
proof -
  assume a: "a < 10" and b: "b < 10" and e: "digit_char a = digit_char b"
  from e have "(of_char (char_of (48 + a)) :: nat) = of_char (char_of (48 + b))"
    by (simp add: digit_char_def)
  with a b show "a = b" by simp
qed

lemma show_nat_nonempty: "show_nat n \<noteq> []"
  by (subst show_nat.simps) simp

lemma show_nat_inj: "show_nat n = show_nat m \<Longrightarrow> n = m"
proof (induction n arbitrary: m rule: show_nat.induct)
  case (1 n)
  show ?case
  proof (cases "n < 10")
    case True
    show ?thesis
    proof (cases "m < 10")
      case True
      with \<open>n < 10\<close> "1.prems" show ?thesis
        by (simp add: show_nat.simps [of n] show_nat.simps [of m] digit_char_inj)
    next
      case False
      with \<open>n < 10\<close> "1.prems" show ?thesis
        using show_nat_nonempty [of "m div 10"]
        by (simp add: show_nat.simps [of n] show_nat.simps [of m])
    qed
  next
    case False
    show ?thesis
    proof (cases "m < 10")
      case True
      with False "1.prems" show ?thesis
        using show_nat_nonempty [of "n div 10"]
        by (simp add: show_nat.simps [of n] show_nat.simps [of m])
    next
      case mf: False
      from False mf "1.prems"
      have e: "show_nat (n div 10) = show_nat (m div 10)" "digit_char (n mod 10) = digit_char (m mod 10)"
        by (simp_all add: show_nat.simps [of n] show_nat.simps [of m])
      from "1.IH" [OF False e(1)] have d: "n div 10 = m div 10" .
      from e(2) have r: "n mod 10 = m mod 10" by (simp add: digit_char_inj)
      from d r show ?thesis by (metis div_mult_mod_eq)
    qed
  qed
qed

lemma newDirPath_inj: "newDirPath P d x = newDirPath P d y \<Longrightarrow> x = y"
  by (simp add: newDirPath_def Let_def show_nat_inj)

lemma taken_finite: "finite {y. existsSync fs (newDirPath P d y)}"
proof -
  have "inj (newDirPath P d)" by (rule injI) (rule newDirPath_inj)
  then have "finite (newDirPath P d -` (set (dirs fs) \<union> set (files fs)))"
    by (intro finite_vimageI) simp_all
  moreover have "{y. existsSync fs (newDirPath P d y)} = newDirPath P d -` (set (dirs fs) \<union> set (files fs))"
    by (auto simp: existsSync_def)
  ultimately show ?thesis by simp
qed

function uniq_loop :: "path_ops \<Rightarrow> filesys \<Rightarrow> string \<Rightarrow> nat \<Rightarrow> string" where
  "uniq_loop P fs dirPath x =
     (if \<not> existsSync fs (newDirPath P dirPath x) then newDirPath P dirPath x
      else uniq_loop P fs dirPath (x + 1))"
  by pat_completeness auto

termination
proof (relation "measure (\<lambda>(P, fs, d, x). card {y. x \<le> y \<and> existsSync fs (newDirPath P d y)})")
  show "wf (measure (\<lambda>(P, fs, d, x). card {y. x \<le> y \<and> existsSync fs (newDirPath P d y)}))" by simp
next
  fix P fs dirPath x
  assume ex: "\<not> \<not> existsSync fs (newDirPath P dirPath x)"
  have fin: "finite {y. x \<le> y \<and> existsSync fs (newDirPath P dirPath y)}"
    by (rule finite_subset [OF _ taken_finite [of fs P dirPath]]) auto
  have "{y. x + 1 \<le> y \<and> existsSync fs (newDirPath P dirPath y)} \<subset> {y. x \<le> y \<and> existsSync fs (newDirPath P dirPath y)}"
  proof
    show "{y. x + 1 \<le> y \<and> existsSync fs (newDirPath P dirPath y)} \<subseteq> {y. x \<le> y \<and> existsSync fs (newDirPath P dirPath y)}"
      by auto
    have "x \<in> {y. x \<le> y \<and> existsSync fs (newDirPath P dirPath y)}" using ex by simp
    moreover have "x \<notin> {y. x + 1 \<le> y \<and> existsSync fs (newDirPath P dirPath y)}" by simp
    ultimately show "{y. x + 1 \<le> y \<and> existsSync fs (newDirPath P dirPath y)} \<noteq> {y. x \<le> y \<and> existsSync fs (newDirPath P dirPath y)}"
      by blast
  qed
  then have "card {y. x + 1 \<le> y \<and> existsSync fs (newDirPath P dirPath y)} < card {y. x \<le> y \<and> existsSync fs (newDirPath P dirPath y)}"
    by (rule psubset_card_mono [OF fin])
  then show "((P, fs, dirPath, x + 1), (P, fs, dirPath, x)) \<in> measure (\<lambda>(P, fs, d, x). card {y. x \<le> y \<and> existsSync fs (newDirPath P d y)})"
    by simp
qed

declare uniq_loop.simps [simp del]

text \<open>\<open>getUniquePath\<close> as in \<^verbatim>\<open>attachmentDownloader.js\<close>: no cleaning.\<close>

definition getUniquePath0 :: "path_ops \<Rightarrow> filesys \<Rightarrow> string \<Rightarrow> string" where
  "getUniquePath0 P fs dirPath =
     (if \<not> existsSync fs dirPath then dirPath else uniq_loop P fs dirPath 1)"

text \<open>
  \<open>getUniquePath\<close> as in the variant with logging and bounded dispatch: the whole
  argument goes through \<open>cleanFileName\<close> first.
\<close>

definition getUniquePath :: "path_ops \<Rightarrow> filesys \<Rightarrow> string \<Rightarrow> string" where
  "getUniquePath P fs p =
     (let dirPath = cleanFileName p
      in if \<not> existsSync fs dirPath then dirPath else uniq_loop P fs dirPath 1)"



section \<open>Requests, callbacks and the waterfall\<close>

text \<open>
  What \<open>request\<close> hands to its callback: \<open>error\<close> (\<open>null\<close> when the transport
  worked), \<open>response.statusCode\<close>, and the body, given here by what \<open>JSON.parse\<close> makes
  of it (\<open>None\<close> when the text is not JSON and \<open>JSON.parse\<close> throws a SyntaxError).
\<close>

record reply =
  error :: jsval
  statusCode :: nat
  body :: "jsval option"

definition JSON_parse :: "jsval option \<Rightarrow> exn + jsval" where
  "JSON_parse b = (case b of None \<Rightarrow> Inl SyntaxError | Some v \<Rightarrow> Inr v)"

text \<open>
  What a task or an event handler does about its continuation: it invokes it with an
  error value and results, it throws, or it returns without invoking it.
\<close>

datatype outcome = Invoked jsval "jsval list" | Thrown exn | NoCall

text \<open>The call \<open>f(err, args...)\<close>: a TypeError when \<open>f\<close> is not a function.\<close>

definition call :: "jsval \<Rightarrow> jsval \<Rightarrow> jsval list \<Rightarrow> outcome" where
  "call f err args = (case f of JFunc n \<Rightarrow> Invoked err args | _ \<Rightarrow> Thrown TypeError)"

text \<open>
  The state a handler works on: the file system, the working directory of the process
  and the module-level counter of finished downloads.
\<close>

record world =
  disk :: filesys
  cwd :: string
  percentCompleted :: nat

type_synonym task = "world \<Rightarrow> jsval list \<Rightarrow> world \<times> outcome"

text \<open>
  \<open>waterfall(tasks, final)\<close> of the package async-waterfall. Each task is called with
  the results of the previous one followed by one more argument, its continuation. When
  the continuation is invoked with a truthy first argument, \<open>final\<close> gets the arguments
  and no further task runs; with a falsy one, the remaining arguments go to the next task,
  or to \<open>final\<close> after the last task. Nothing catches what a task throws.
\<close>

datatype wf_result = Final jsval "jsval list" | Uncaught exn | Stalled

fun waterfall :: "task list \<Rightarrow> world \<Rightarrow> jsval list \<Rightarrow> world \<times> wf_result" where
  "waterfall [] w args = (w, Final JUndefined [])"
| "waterfall (t # ts) w args =
     (case t w (args @ [JFunc ''callback'']) of
        (w', Invoked err res) \<Rightarrow>
          if truthy err then (w', Final err res)
          else if ts = [] then (w', Final err res)
          else waterfall ts w' res
      | (w', Thrown e) \<Rightarrow> (w', Uncaught e)
      | (w', NoCall) \<Rightarrow> (w', Stalled))"


section \<open>AttachmentHandler.writeAttachment\<close>

text \<open>The callback given to \<open>request\<close> by the first task, for the owner record.\<close>

definition onOwnerReply :: "jsval \<Rightarrow> reply \<Rightarrow> outcome" where
  "onOwnerReply callback r =
     (if truthy (error r) then call callback (error r) []
      else if \<not> truthy (error r) \<and> statusCode r \<noteq> 200 then call callback (error r) []
      else
        case JSON_parse (body r) of
          Inl e \<Rightarrow> Thrown e
        | Inr b \<Rightarrow>
           (case get_prop b ''result'' of
              Inl e \<Rightarrow> Thrown e
            | Inr res \<Rightarrow>
               (case get_prop res ''number'' of
                  Inl e \<Rightarrow> Thrown e
                | Inr num \<Rightarrow>
                    if truthy num then call callback JNull [num]
                    else (case get_prop res ''sys_id'' of
                            Inl e \<Rightarrow> Thrown e
                          | Inr sid \<Rightarrow> call callback JNull [sid]))))"

text \<open>First task, \<open>function (callback)\<close>: the table directory, then the owner request.\<close>

definition resolveTaskNumber :: "path_ops \<Rightarrow> string \<Rightarrow> att \<Rightarrow> reply \<Rightarrow> task" where
  "resolveTaskNumber P base a r w args =
     (let callback = arg args 0
      in case createDirectorySync P base (disk w) (table_name a) of
           Inl e \<Rightarrow> (w, Thrown e)
         | Inr d \<Rightarrow> (w\<lparr>disk := d\<rparr>, onOwnerReply callback r))"

text \<open>Second task, \<open>function (taskNumber, callback)\<close>.\<close>

definition createTaskDirectory :: "path_ops \<Rightarrow> string \<Rightarrow> att \<Rightarrow> task" where
  "createTaskDirectory P base a w args =
     (let taskNumber = arg args 0; callback = arg args 1
      in case js_path_join P (JStr (table_name a)) taskNumber of
           Inl e \<Rightarrow> (w, Thrown e)
         | Inr dirPath \<Rightarrow>
            (case createDirectorySync P base (disk w) dirPath of
               Inl e \<Rightarrow> (w, Thrown e)
             | Inr d \<Rightarrow> (w\<lparr>disk := d\<rparr>, call callback JNull [JStr dirPath])))"

text \<open>
  Third task, \<open>function (dirPath, callback)\<close>; \<open>complete\<close> says whether the download
  request emits its \<open>complete\<close> event, whose handler counts and invokes the continuation.
  A write stream that cannot be opened ends the task with the error thrown.
\<close>

definition downloadAttachment :: "path_ops \<Rightarrow> att \<Rightarrow> bool \<Rightarrow> task" where
  "downloadAttachment P a complete w args =
     (let dirPath = arg args 0; callback = arg args 1
      in case js_path_join P dirPath (JStr (file_name a)) of
           Inl e \<Rightarrow> (w, Thrown e)
         | Inr p \<Rightarrow>
            (let filename = getUniquePath P (disk w) p
             in case createWriteStream P (cwd w) (disk w) filename of
                  Inl e \<Rightarrow> (w, Thrown e)
                | Inr d \<Rightarrow>
                   (let w1 = w\<lparr>disk := d\<rparr>
                    in if complete
                       then (w1\<lparr>percentCompleted := percentCompleted w1 + 1\<rparr>,
                             call callback JNull [])
                       else (w1, NoCall))))"

text \<open>
  \<open>writeAttachment(cb)\<close>: the three tasks under \<open>waterfall\<close>, with the final function
  \<open>function (err) { cb(); }\<close>. The handler ends by invoking \<open>cb\<close>, or an exception
  escapes it, or it never invokes \<open>cb\<close>.
\<close>

datatype handler_result = CbCalled | Crashed exn | Hung

definition writeAttachment ::
  "path_ops \<Rightarrow> string \<Rightarrow> att \<Rightarrow> reply \<Rightarrow> bool \<Rightarrow> world \<Rightarrow> world \<times> handler_result" where
  "writeAttachment P base a r complete w =
     (case waterfall [resolveTaskNumber P base a r, createTaskDirectory P base a,
                      downloadAttachment P a complete] w [] of
        (w', Final err res) \<Rightarrow> (w', CbCalled)
      | (w', Uncaught e) \<Rightarrow> (w', Crashed e)
      | (w', Stalled) \<Rightarrow> (w', Hung))"

text \<open>
  A batch handled one attachment after the other, each with the reply to its owner request
  and the fate of its download. An exception that escapes a handler is uncaught and ends
  the process, so nothing after it is handled.
\<close>

fun run_batch ::
  "path_ops \<Rightarrow> string \<Rightarrow> (att \<times> reply \<times> bool) list \<Rightarrow> world \<Rightarrow> world \<times> handler_result list" where
  "run_batch P base [] w = (w, [])"
| "run_batch P base ((a, r, c) # rest) w =
     (case writeAttachment P base a r c w of
        (w', Crashed e) \<Rightarrow> (w', [Crashed e])
      | (w', res) \<Rightarrow> (case run_batch P base rest w' of (w'', rs) \<Rightarrow> (w'', res # rs)))"


section \<open>The script: configuration, list query, dispatch\<close>

record config =
  instanceName :: jsval
  userName :: jsval
  password :: jsval
  attachmentFilter :: jsval
  logfile :: jsval

text \<open>The condition of the \<open>if\<close> that logs "Bad configuration" and calls \<open>process.exit(1)\<close>.\<close>

definition bad_configuration :: "config \<Rightarrow> bool" where
  "bad_configuration c =
     (\<not> truthy (instanceName c) \<or> \<not> truthy (userName c) \<or> \<not> truthy (password c)
      \<or> \<not> truthy (attachmentFilter c) \<or> \<not> truthy (logfile c))"

text \<open>
  The \<open>forEach\<close> over \<open>body.result\<close> in the callback of the list query: each element is
  pushed, and the continuation is invoked in the round in which \<open>counter\<close> equals the
  length. The result is the list of invocations made, each with the array it passes.
\<close>

fun forEach_att :: "nat \<Rightarrow> jsval list \<Rightarrow> jsval list \<Rightarrow> nat \<Rightarrow> jsval list list" where
  "forEach_att len [] attachments counter = []"
| "forEach_att len (a # rest) attachments counter =
     (let attachments = attachments @ [a]
      in (if counter = len then [attachments] else [])
         @ forEach_att len rest attachments (counter + 1))"

datatype list_result = Exit nat | ListThrown exn | Callbacks "jsval list list"

definition onListReply :: "reply \<Rightarrow> list_result" where
  "onListReply r =
     (if truthy (error r) then Exit 1
      else if \<not> truthy (error r) \<and> statusCode r \<noteq> 200 then Exit 1
      else
        case JSON_parse (body r) of
          Inl e \<Rightarrow> ListThrown e
        | Inr b \<Rightarrow>
           (case get_prop b ''result'' of
              Inl e \<Rightarrow> ListThrown e
            | Inr res \<Rightarrow>
               (case res of
                  JArr xs \<Rightarrow> Callbacks (forEach_att (length xs) xs [] 1)
                | _ \<Rightarrow> ListThrown TypeError)))"

text \<open>
  \<open>new (logger.transports.File)({filename: logfile})\<close> inside \<open>logger.configure\<close>, which
  runs between the configuration check and the first request. The transport of the package
  winston takes \<open>path.basename(filename)\<close> of a truthy file name, a TypeError unless the
  name is a string, and throws a plain \<open>Error\<close> when it is given no file name.
\<close>

definition File_transport :: "jsval \<Rightarrow> exn + unit" where
  "File_transport filename =
     (if truthy filename
      then (case filename of JStr s \<Rightarrow> Inr () | _ \<Rightarrow> Inl TypeError)
      else Inl PlainError)"

text \<open>
  The script from its first line to the dispatch: the network calls made so far and the
  state reached. \<open>Exited n\<close> is \<open>process.exit(n)\<close>, \<open>Died e\<close> an exception that nothing
  catches. \<open>Dispatched cs\<close> holds one entry for every time the second task of the outer
  waterfall was started, with the attachments it was given.
\<close>

datatype netcall = ListAttachments

datatype run_state = Exited nat | Died exn | Dispatched "jsval list list"

definition script :: "config \<Rightarrow> reply \<Rightarrow> netcall list \<times> run_state" where
  "script c r =
     (if bad_configuration c then ([], Exited 1)
      else
        case File_transport (logfile c) of
          Inl e \<Rightarrow> ([], Died e)
        | Inr u \<Rightarrow>
            ([ListAttachments],
             case onListReply r of
               Exit n \<Rightarrow> Exited n
             | ListThrown e \<Rightarrow> Died e
             | Callbacks cs \<Rightarrow> Dispatched cs))"

text \<open>
  \<open>async.eachOfLimit(attachments, 5, iteratee)\<close> of the package async, by its keys
  (array indices): it starts the iteratee on the next key while fewer than \<open>limit\<close> are
  running, and when an iteratee invokes its callback it counts one less and starts again.
  The state is the keys not yet started and the keys whose handler is under way.
\<close>

fun replenish :: "nat \<Rightarrow> nat list \<Rightarrow> nat list \<Rightarrow> nat list \<times> nat list" where
  "replenish limit [] run = ([], run)"
| "replenish limit (k # rest) run =
     (if length run < limit then replenish limit rest (run @ [k]) else (k # rest, run))"

definition eachOfLimit :: "nat \<Rightarrow> nat \<Rightarrow> nat list \<times> nat list" where
  "eachOfLimit n limit = replenish limit [0..<n] []"

text \<open>The callback of key \<open>k\<close> is invoked (by \<open>cb()\<close>, so without an error).\<close>

definition iterateeCallback :: "nat \<Rightarrow> nat \<Rightarrow> nat list \<times> nat list \<Rightarrow> nat list \<times> nat list" where
  "iterateeCallback limit k s =
     (case s of (wait, run) \<Rightarrow>
        if k \<in> set run then replenish limit wait (remove1 k run) else (wait, run))"

text \<open>The second task of the outer waterfall, followed by the callbacks of \<open>ks\<close> in turn.\<close>

definition dispatch :: "nat \<Rightarrow> nat list \<Rightarrow> nat list \<times> nat list" where
  "dispatch n ks = foldl (\<lambda>s k. iterateeCallback 5 k s) (eachOfLimit n 5) ks"


section \<open>A sample of the path module\<close>

text \<open>
  For evaluating the script on concrete inputs: the POSIX functions on paths made of
  non-empty segments separated by single slashes, not ending in a slash, with no segment
  \<open>.\<close> or \<open>..\<close>, no segment starting with a dot, and whose last slash (if any) is
  not the first character. On such paths they return what Node's \<open>path.posix\<close> returns,
  \<open>path.resolve\<close> being applied to an absolute working directory and a relative path.
\<close>

definition last_segment :: "string \<Rightarrow> string" where
  "last_segment p = rev (takeWhile (\<lambda>c. c \<noteq> CHR ''/'') (rev p))"

definition posix_dirname :: "string \<Rightarrow> string" where
  "posix_dirname p =
     (if CHR ''/'' \<notin> set p then ''.''
      else rev (tl (dropWhile (\<lambda>c. c \<noteq> CHR ''/'') (rev p))))"

definition posix_extname :: "string \<Rightarrow> string" where
  "posix_extname p =
     (let seg = last_segment p
      in if CHR ''.'' \<notin> set seg then []
         else CHR ''.'' # rev (takeWhile (\<lambda>c. c \<noteq> CHR ''.'') (rev seg)))"

definition posix_basename :: "string \<Rightarrow> string \<Rightarrow> string" where
  "posix_basename p ext =
     (let seg = last_segment p
      in if ext \<noteq> [] \<and> length ext < length seg \<and> drop (length seg - length ext) seg = ext
         then take (length seg - length ext) seg else seg)"

definition posix :: path_ops where
  "posix = \<lparr>path_join = (\<lambda>a b. a @ ''/'' @ b), path_resolve = (\<lambda>wd p. wd @ ''/'' @ p),
            path_dirname = posix_dirname,
            path_basename = posix_basename, path_extname = posix_extname,
            path_sep = ''/''\<rparr>"

text \<open>
  Sample inputs: an installation directory, which is the working directory too, an empty
  tree below it, two attachments.
\<close>

definition app_dir :: string where
  "app_dir = ''/srv/app''"

definition fresh_world :: world where
  "fresh_world = \<lparr>disk = \<lparr>dirs = [app_dir], files = []\<rparr>, cwd = app_dir,
                   percentCompleted = 0\<rparr>"

definition att_x :: att where
  "att_x = \<lparr>sys_id = ''a1'', file_name = ''log.txt'', table_name = ''incident'',
            table_sys_id = ''r1''\<rparr>"

definition att_y :: att where
  "att_y = \<lparr>sys_id = ''a2'', file_name = ''trace.txt'', table_name = ''incident'',
            table_sys_id = ''r2''\<rparr>"

text \<open>A reply with status 200 and body \<open>{"result": {"number": n, "sys_id": "r"}}\<close>.\<close>

definition reply_ok :: "string \<Rightarrow> reply" where
  "reply_ok n =
     \<lparr>error = JNull, statusCode = 200,
      body = Some (JObj [(''result'', JObj [(''number'', JStr n), (''sys_id'', JStr ''r'')])])\<rparr>"

text \<open>A reply with status 500 and a body that is not JSON.\<close>

definition reply_500 :: reply where
  "reply_500 = \<lparr>error = JNull, statusCode = 500, body = None\<rparr>"


section \<open>Notions used in the statements\<close>

text \<open>The value of property \<open>k\<close> of an object, \<open>undefined\<close> when it has none.\<close>

definition own_prop :: "(string \<times> jsval) list \<Rightarrow> string \<Rightarrow> jsval" where
  "own_prop kvs k = (case map_of kvs k of None \<Rightarrow> JUndefined | Some v \<Rightarrow> v)"

text \<open>A configuration entry that is a string or is not there.\<close>

fun string_or_absent :: "jsval \<Rightarrow> bool" where
  "string_or_absent JUndefined = True"
| "string_or_absent (JStr s) = True"
| "string_or_absent v = False"

text \<open>
  \<open>x\<close> is the first counter, from 1 upwards, whose candidate for \<open>q\<close> does not exist.
\<close>

definition first_free :: "path_ops \<Rightarrow> filesys \<Rightarrow> string \<Rightarrow> nat \<Rightarrow> bool" where
  "first_free P fs q x =
     (1 \<le> x \<and> \<not> existsSync fs (newDirPath P q x)
      \<and> (\<forall>y. 1 \<le> y \<and> y < x \<longrightarrow> existsSync fs (newDirPath P q y)))"

text \<open>
  At most \<open>limit\<close> handlers are under way, and keys wait only while \<open>limit\<close> are.
\<close>

definition within_limit :: "nat \<Rightarrow> nat list \<times> nat list \<Rightarrow> bool" where
  "within_limit limit s = (case s of (wait, run) \<Rightarrow>
      length run \<le> limit \<and> (wait \<noteq> [] \<longrightarrow> length run = limit))"


section \<open>Properties of cleanFileName\<close>

lemma replace_g_filter: "replace_g cls s = filter (\<lambda>c. \<not> cls c) s"
  by (induction s) auto

lemma cleanFileName_filter:
  "cleanFileName s = filter (\<lambda>c. \<not> in_denylist c \<and> \<not> non_ascii c) s"
  by (simp add: cleanFileName_def replace_g_filter conj_commute)

lemma cleanFileName_append: "cleanFileName (a @ b) = cleanFileName a @ cleanFileName b"
  by (simp add: cleanFileName_filter)

lemma cleanFileName_idem: "cleanFileName (cleanFileName s) = cleanFileName s"
  by (simp add: cleanFileName_filter)

text \<open>
  C7. \<open>cleanFileName\<close> removes every character of the punctuation denylist and every
  non-ASCII code unit, keeps all other characters in their order, and its result is a
  function of the input string alone (the embedding takes no state and returns none).
\<close>

theorem C7_cleanFileName_strips:
  "(\<forall>c \<in> set (cleanFileName s). c \<notin> set denylist \<and> (of_char c :: nat) \<le> 0x7F)
   \<and> cleanFileName s = filter (\<lambda>c. c \<notin> set denylist \<and> (of_char c :: nat) \<le> 0x7F) s"
  by (auto simp: cleanFileName_filter in_denylist_def non_ascii_def)

text \<open>
  A name with an ampersand, the code unit \<open>0xE9\<close> and brackets: \<open>a\<close> is kept, and
  \<open>a1.t\<close> is what remains.
\<close>

theorem C7_cleanFileName_strips_witness:
  "CHR ''a'' \<in> set (cleanFileName [CHR ''a'', CHR ''&'', CHR 0xE9, CHR ''('', CHR ''1'', CHR '')'', CHR ''.'', CHR ''t''])
   \<and> CHR ''a'' \<notin> set denylist \<and> (of_char (CHR ''a'') :: nat) \<le> 0x7F
   \<and> cleanFileName [CHR ''a'', CHR ''&'', CHR 0xE9, CHR ''('', CHR ''1'', CHR '')'', CHR ''.'', CHR ''t'']
       = ''a1.t''"
proof -
  have e: "cleanFileName [CHR ''a'', CHR ''&'', CHR 0xE9, CHR ''('', CHR ''1'', CHR '')'', CHR ''.'', CHR ''t'']
             = ''a1.t''"
    by (simp add: cleanFileName_def in_denylist_def non_ascii_def denylist_def)
  have m: "CHR ''a'' \<in> set (cleanFileName [CHR ''a'', CHR ''&'', CHR 0xE9, CHR ''('', CHR ''1'', CHR '')'', CHR ''.'', CHR ''t''])"
    unfolding e by simp
  from C7_cleanFileName_strips
      [of "[CHR ''a'', CHR ''&'', CHR 0xE9, CHR ''('', CHR ''1'', CHR '')'', CHR ''.'', CHR ''t'']"]
  have "CHR ''a'' \<notin> set denylist \<and> (of_char (CHR ''a'') :: nat) \<le> 0x7F"
    using m by blast
  with m e show ?thesis by simp
qed

section \<open>getUniquePath\<close>

lemma uniq_loop_first_free:
  "\<not> existsSync fs (newDirPath P d (x + k)) \<Longrightarrow>
   (\<forall>j<k. existsSync fs (newDirPath P d (x + j))) \<Longrightarrow>
   uniq_loop P fs d x = newDirPath P d (x + k)"
proof (induction k arbitrary: x)
  case 0
  then show ?case by (simp add: uniq_loop.simps [of P fs d x])
next
  case (Suc k)
  from Suc.prems(2) have here: "existsSync fs (newDirPath P d x)"
    by (metis add.right_neutral zero_less_Suc)
  have free: "\<not> existsSync fs (newDirPath P d (x + 1 + k))"
    using Suc.prems(1) by simp
  have below: "\<forall>j<k. existsSync fs (newDirPath P d (x + 1 + j))"
  proof (intro allI impI)
    fix j assume "j < k"
    then have "Suc j < Suc k" by simp
    with Suc.prems(2) have "existsSync fs (newDirPath P d (x + Suc j))" by blast
    then show "existsSync fs (newDirPath P d (x + 1 + j))" by simp
  qed
  from Suc.IH [OF free below] here show ?case
    by (simp add: uniq_loop.simps [of P fs d x])
qed

lemma free_candidate: "\<exists>x\<ge>1. \<not> existsSync fs (newDirPath P d x)"
proof -
  from taken_finite [of fs P d]
  obtain m where m: "\<forall>n \<in> {y. existsSync fs (newDirPath P d y)}. n < m"
    using finite_nat_set_iff_bounded by blast
  have "\<not> existsSync fs (newDirPath P d (Suc m))"
    using m by fastforce
  then show ?thesis by (intro exI [of _ "Suc m"]) simp
qed

lemma uniq_loop_from_1: "\<exists>x. first_free P fs d x \<and> uniq_loop P fs d 1 = newDirPath P d x"
proof -
  define Q where "Q x \<longleftrightarrow> 1 \<le> x \<and> \<not> existsSync fs (newDirPath P d x)" for x
  from free_candidate [of fs P d] have ex: "\<exists>x. Q x" by (auto simp: Q_def)
  define x where "x = (LEAST x. Q x)"
  from ex have qx: "Q x" unfolding x_def by (metis LeastI)
  have least: "\<And>y. y < x \<Longrightarrow> \<not> Q y" unfolding x_def by (rule not_less_Least)
  from qx have x1: "1 \<le> x" and free: "\<not> existsSync fs (newDirPath P d x)"
    by (simp_all add: Q_def)
  have below: "\<forall>y. 1 \<le> y \<and> y < x \<longrightarrow> existsSync fs (newDirPath P d y)"
    using least by (auto simp: Q_def)
  have "uniq_loop P fs d 1 = newDirPath P d (1 + (x - 1))"
  proof (rule uniq_loop_first_free)
    show "\<not> existsSync fs (newDirPath P d (1 + (x - 1)))" using x1 free by simp
    show "\<forall>j<x - 1. existsSync fs (newDirPath P d (1 + j))"
      using below by auto
  qed
  with x1 have "uniq_loop P fs d 1 = newDirPath P d x" by simp
  with x1 free below show ?thesis by (auto simp: first_free_def)
qed

text \<open>
  The function of \<^verbatim>\<open>attachmentDownloader.js\<close>, which does not clean: the path itself
  when nothing exists at it, else the first free candidate.
\<close>

lemma getUniquePath0_spec:
  "(\<not> existsSync fs q \<longrightarrow> getUniquePath0 P fs q = q)
   \<and> (existsSync fs q \<longrightarrow> (\<exists>x. first_free P fs q x \<and> getUniquePath0 P fs q = newDirPath P q x))"
  using uniq_loop_from_1 [of P fs q] by (simp add: getUniquePath0_def)

lemma getUniquePath_clean: "getUniquePath P fs p = getUniquePath0 P fs (cleanFileName p)"
  by (simp add: getUniquePath_def getUniquePath0_def Let_def)

text \<open>
  C3. \<open>getUniquePath\<close> cleans its argument before it looks at the file system. For a
  candidate \<open>d + f\<close> whose front part \<open>d\<close> (the directory with its separator) holds no
  character that \<open>cleanFileName\<close> removes, let \<open>q\<close> be the candidate with the file name
  \<open>f\<close> cleaned. If nothing exists at \<open>q\<close> the result is \<open>q\<close>. Otherwise it is
  \<open>dirname(q) + sep + basename(q, ext) + '[' + x + ']' + ext\<close> with \<open>ext = extname(q)\<close>,
  for the first \<open>x = 1, 2, ...\<close> at which no such path exists; in particular the loop ends.
\<close>

theorem C3_getUniquePath_sanitized:
  assumes "cleanFileName d = d" and "q = d @ cleanFileName f"
  shows "(\<not> existsSync fs q \<longrightarrow> getUniquePath P fs (d @ f) = q)
       \<and> (existsSync fs q \<longrightarrow>
            (\<exists>x. first_free P fs q x
                 \<and> getUniquePath P fs (d @ f) =
                     path_dirname P q @ path_sep P @ path_basename P q (path_extname P q)
                       @ ''['' @ show_nat x @ '']'' @ path_extname P q))"
proof -
  have "cleanFileName (d @ f) = q"
    using assms by (simp add: cleanFileName_append)
  then have "getUniquePath P fs (d @ f) = getUniquePath0 P fs q"
    by (simp add: getUniquePath_clean)
  with getUniquePath0_spec [of fs q P] show ?thesis
    by (simp add: newDirPath_def Let_def)
qed

lemma getUniquePath_third:
  "getUniquePath posix \<lparr>dirs = [], files = [''a/bc.txt'', ''a/bc[1].txt'']\<rparr> ''a/b&c.txt''
     = ''a/bc[2].txt''"
  by code_simp

text \<open>The instance with \<open>a/bc.txt\<close> and \<open>a/bc[1].txt\<close> on the disk.\<close>

theorem C3_getUniquePath_sanitized_witness:
  "cleanFileName ''a/'' = ''a/''
   \<and> existsSync \<lparr>dirs = [], files = [''a/bc.txt'', ''a/bc[1].txt'']\<rparr> ''a/bc.txt''
   \<and> (\<exists>x. first_free posix \<lparr>dirs = [], files = [''a/bc.txt'', ''a/bc[1].txt'']\<rparr> ''a/bc.txt'' x
          \<and> getUniquePath posix \<lparr>dirs = [], files = [''a/bc.txt'', ''a/bc[1].txt'']\<rparr> ''a/b&c.txt'' =
               ''a/bc['' @ show_nat x @ ''].txt'')
   \<and> getUniquePath posix \<lparr>dirs = [], files = [''a/bc.txt'', ''a/bc[1].txt'']\<rparr> ''a/b&c.txt''
       = ''a/bc[2].txt''"
proof -
  have c1: "cleanFileName ''a/'' = ''a/''"
    and c2: "''a/bc.txt'' = ''a/'' @ cleanFileName ''b&c.txt''"
    by (simp_all add: cleanFileName_def in_denylist_def non_ascii_def denylist_def)
  have e: "existsSync \<lparr>dirs = [], files = [''a/bc.txt'', ''a/bc[1].txt'']\<rparr> ''a/bc.txt''"
    by (simp add: existsSync_def)
  have p: "path_dirname posix ''a/bc.txt'' = ''a''" "path_extname posix ''a/bc.txt'' = ''.txt''"
    "path_basename posix ''a/bc.txt'' ''.txt'' = ''bc''" "path_sep posix = ''/''"
    by (simp_all add: posix_def posix_dirname_def posix_extname_def posix_basename_def
          last_segment_def)
  show ?thesis
    using C3_getUniquePath_sanitized [OF c1 c2,
        of "\<lparr>dirs = [], files = [''a/bc.txt'', ''a/bc[1].txt'']\<rparr>" posix]
      e c1
    by (simp add: p getUniquePath_third)
qed

text \<open>With nothing on the disk, the path \<open>a/b&c.txt\<close> does not come back unchanged.\<close>

theorem C3_unchanged_counterexample:
  "\<not> existsSync \<lparr>dirs = [], files = []\<rparr> ''a/b&c.txt''
   \<and> getUniquePath posix \<lparr>dirs = [], files = []\<rparr> ''a/b&c.txt'' \<noteq> ''a/b&c.txt''"
  by (simp add: existsSync_def getUniquePath_def cleanFileName_def in_denylist_def
        non_ascii_def denylist_def)


section \<open>createDirectorySync\<close>

text \<open>
  C6. \<open>createDirectorySync\<close> leaves the file system as it is when the path under the
  base directory exists; when it does not exist and its parent is an existing directory,
  that one directory is created; when the parent is not an existing directory, nothing is
  created and the call throws (ENOENT for a missing parent).
\<close>

theorem C6_createDirectorySync_one_level:
  "(existsSync fs (path_join P base dir) \<longrightarrow> createDirectorySync P base fs dir = Inr fs)
   \<and> (\<not> existsSync fs (path_join P base dir)
        \<and> path_dirname P (path_join P base dir) \<in> set (dirs fs) \<longrightarrow>
        createDirectorySync P base fs dir = Inr (fs\<lparr>dirs := path_join P base dir # dirs fs\<rparr>))
   \<and> (\<not> existsSync fs (path_join P base dir)
        \<and> path_dirname P (path_join P base dir) \<notin> set (dirs fs) \<longrightarrow>
        createDirectorySync P base fs dir =
          Inl (if path_dirname P (path_join P base dir) \<in> set (files fs) then ENOTDIR
               else ENOENT))"
  by (simp add: createDirectorySync_def mkdirSync_def Let_def)

text \<open>The three cases below \<open>/srv/app\<close>.\<close>

theorem C6_createDirectorySync_one_level_witness:
  "createDirectorySync posix app_dir \<lparr>dirs = [app_dir], files = []\<rparr> ''incident''
     = Inr \<lparr>dirs = [''/srv/app/incident'', app_dir], files = []\<rparr>
   \<and> createDirectorySync posix app_dir
        \<lparr>dirs = [''/srv/app/incident'', app_dir], files = []\<rparr> ''incident''
     = Inr \<lparr>dirs = [''/srv/app/incident'', app_dir], files = []\<rparr>
   \<and> createDirectorySync posix app_dir \<lparr>dirs = [app_dir], files = []\<rparr> ''incident/INC1''
     = Inl ENOENT"
proof -
  have j: "path_join posix app_dir d = ''/srv/app/'' @ d" for d
    by (simp add: posix_def app_dir_def)
  have d1: "path_dirname posix (''/srv/app/'' @ ''incident'') = ''/srv/app''"
    and d2: "path_dirname posix (''/srv/app/'' @ ''incident/INC1'') = ''/srv/app/incident''"
    by (simp_all add: posix_def posix_dirname_def)
  show ?thesis
    using C6_createDirectorySync_one_level
        [of "\<lparr>dirs = [app_dir], files = []\<rparr>" posix app_dir "''incident''"]
      C6_createDirectorySync_one_level
        [of "\<lparr>dirs = [''/srv/app/incident'', app_dir], files = []\<rparr>" posix app_dir "''incident''"]
      C6_createDirectorySync_one_level
        [of "\<lparr>dirs = [app_dir], files = []\<rparr>" posix app_dir "''incident/INC1''"]
    unfolding j d1 d2 by (simp add: existsSync_def app_dir_def)
qed

text \<open>
  With only \<open>/srv/app\<close> on the disk, \<open>incident/INC1\<close> is not created: its parent is
  missing and the call throws.
\<close>

theorem C6_parents_counterexample:
  "\<not> existsSync \<lparr>dirs = [app_dir], files = []\<rparr> (path_join posix app_dir ''incident/INC1'')
   \<and> createDirectorySync posix app_dir \<lparr>dirs = [app_dir], files = []\<rparr> ''incident/INC1''
       = Inl ENOENT"
  by (simp add: createDirectorySync_def mkdirSync_def existsSync_def posix_def
        posix_dirname_def app_dir_def)


section \<open>The owner request\<close>

lemma onOwnerReply_ok:
  assumes "\<not> truthy (error r)" "statusCode r = 200" "body r = Some b"
    "get_prop b ''result'' = Inr (JObj kvs)"
  shows "onOwnerReply (JFunc f) r =
           Invoked JNull [if truthy (own_prop kvs ''number'') then own_prop kvs ''number''
                          else own_prop kvs ''sys_id'']"
  using assms by (simp add: onOwnerReply_def JSON_parse_def call_def own_prop_def)

text \<open>
  C4. On a reply without transport error, with status 200 and a body whose \<open>result\<close> is
  an object, the continuation receives the \<open>number\<close> of the record when that is a
  non-empty string, and the record's \<open>sys_id\<close> when \<open>number\<close> is missing, \<open>null\<close> or the
  empty string.
\<close>

theorem C4_number_else_sys_id:
  assumes "\<not> truthy (error r)" "statusCode r = 200" "body r = Some b"
    "get_prop b ''result'' = Inr (JObj kvs)"
  shows "(map_of kvs ''number'' = Some (JStr s) \<and> s \<noteq> [] \<longrightarrow>
            onOwnerReply (JFunc f) r = Invoked JNull [JStr s])
       \<and> (map_of kvs ''number'' = None \<or> map_of kvs ''number'' = Some JNull
            \<or> map_of kvs ''number'' = Some (JStr []) \<longrightarrow>
            onOwnerReply (JFunc f) r = Invoked JNull [own_prop kvs ''sys_id''])"
  using onOwnerReply_ok [OF assms, of f] by (auto simp: own_prop_def)

text \<open>A record with number \<open>INC0010001\<close>, and one whose number is empty.\<close>

theorem C4_number_else_sys_id_witness:
  "onOwnerReply (JFunc ''callback'') (reply_ok ''INC0010001'')
     = Invoked JNull [JStr ''INC0010001'']
   \<and> onOwnerReply (JFunc ''callback'') (reply_ok []) = Invoked JNull [JStr ''r'']"
proof -
  have a: "\<not> truthy (error (reply_ok n))" "statusCode (reply_ok n) = 200"
    "body (reply_ok n) =
       Some (JObj [(''result'', JObj [(''number'', JStr n), (''sys_id'', JStr ''r'')])])"
    "get_prop (JObj [(''result'', JObj [(''number'', JStr n), (''sys_id'', JStr ''r'')])])
       ''result'' = Inr (JObj [(''number'', JStr n), (''sys_id'', JStr ''r'')])" for n
    by (simp_all add: reply_ok_def)
  from C4_number_else_sys_id [OF a, of "''INC0010001''" "''INC0010001''" "''callback''"]
    C4_number_else_sys_id [OF a, of "[]" "[]" "''callback''"]
  show ?thesis by (simp add: own_prop_def)
qed

text \<open>
  C1. What the handler does with a reply of status 500 that carries no transport error:
  the continuation is invoked with \<open>null\<close> as its error and no result, so the waterfall
  starts the second task, which gets the continuation in the place of \<open>taskNumber\<close> and
  throws a TypeError; no error reaches the final function of the pipeline.
\<close>

theorem C1_status_500_goes_on:
  "onOwnerReply (JFunc ''callback'') reply_500 = Invoked JNull []
   \<and> createTaskDirectory posix app_dir att_x fresh_world [JFunc ''callback'']
       = (fresh_world, Thrown TypeError)
   \<and> snd (writeAttachment posix app_dir att_x reply_500 True fresh_world) = Crashed TypeError"
  by code_simp

text \<open>
  C5. What is computed for an attachment \<open>log.txt\<close> of table \<open>incident\<close> whose owner
  has the number \<open>INC(1)\<close>: the second task creates \<open>incident/INC(1)\<close> under the base
  and hands \<open>incident/INC(1)\<close> on; the third task computes the file name
  \<open>incident/INC1/log.txt\<close>, the brackets of the owner label gone, which is not the
  directory joined with the cleaned file name.
\<close>

theorem C5_directory_cleaned_too:
  "createTaskDirectory posix app_dir att_x
      \<lparr>disk = \<lparr>dirs = [''/srv/app/incident'', ''/srv/app''], files = []\<rparr>,
       cwd = ''/srv/app'', percentCompleted = 0\<rparr>
      [JStr ''INC(1)'', JFunc ''callback'']
     = (\<lparr>disk = \<lparr>dirs = [''/srv/app/incident/INC(1)'', ''/srv/app/incident'', ''/srv/app''],
                 files = []\<rparr>,
         cwd = ''/srv/app'', percentCompleted = 0\<rparr>,
        Invoked JNull [JStr ''incident/INC(1)''])
   \<and> getUniquePath posix
        \<lparr>dirs = [''/srv/app/incident/INC(1)'', ''/srv/app/incident'', ''/srv/app''], files = []\<rparr>
        (path_join posix ''incident/INC(1)'' (file_name att_x))
     = ''incident/INC1/log.txt''
   \<and> path_join posix ''incident/INC(1)'' (cleanFileName (file_name att_x))
     = ''incident/INC(1)/log.txt''"
  by code_simp

text \<open>
  The directory \<open>incident/INC1\<close> was never created, so the write stream cannot be
  opened: no file is written and the error ends the handler.
\<close>

lemma open_in_missing_directory:
  "writeAttachment posix app_dir att_x (reply_ok ''INC(1)'') True fresh_world =
     (\<lparr>disk = \<lparr>dirs = [''/srv/app/incident/INC(1)'', ''/srv/app/incident'', ''/srv/app''],
               files = []\<rparr>,
       cwd = ''/srv/app'', percentCompleted = 0\<rparr>, Crashed ENOENT)"
  by code_simp

text \<open>With the number \<open>INC0010001\<close> the file is written below the directory created.\<close>

lemma open_in_created_directory:
  "writeAttachment posix app_dir att_x (reply_ok ''INC0010001'') True fresh_world =
     (\<lparr>disk = \<lparr>dirs = [''/srv/app/incident/INC0010001'', ''/srv/app/incident'', ''/srv/app''],
               files = [''incident/INC0010001/log.txt'']\<rparr>,
       cwd = ''/srv/app'', percentCompleted = 1\<rparr>, CbCalled)"
  by code_simp

text \<open>
  C2. A batch of two: alone, the second attachment is handled to the end; behind an
  attachment whose owner request is answered with status 500, it is not handled at all,
  because the TypeError of the first ends the run.
\<close>

theorem C2_status_500_ends_batch:
  "snd (run_batch posix app_dir [(att_y, reply_ok ''INC2'', True)] fresh_world) = [CbCalled]
   \<and> snd (run_batch posix app_dir
            [(att_x, reply_500, True), (att_y, reply_ok ''INC2'', True)] fresh_world)
       = [Crashed TypeError]"
  by code_simp

text \<open>
  A transport error of the owner request, by contrast, reaches the final function, which
  invokes \<open>cb\<close>; the next attachment is handled.
\<close>

lemma transport_error_isolated:
  "snd (run_batch posix app_dir
          [(att_x, reply_500\<lparr>error := JStr ''ECONNRESET''\<rparr>, True),
           (att_y, reply_ok ''INC2'', True)] fresh_world)
     = [CbCalled, CbCalled]"
  by code_simp


section \<open>Configuration and the list query\<close>

lemma File_transport_string: "s \<noteq> [] \<Longrightarrow> File_transport (JStr s) = Inr ()"
  by (simp add: File_transport_def)

lemma falsy_string_or_absent:
  "string_or_absent v \<Longrightarrow> (\<not> truthy v) = (v = JUndefined \<or> v = JStr [])"
  by (cases v) auto

text \<open>
  C8. When each of \<open>instanceName\<close>, \<open>userName\<close>, \<open>password\<close>, \<open>attachmentFilter\<close> and
  \<open>logfile\<close> is a string or is missing, the script ends before any network call exactly
  when one of the five is missing or empty, and it does so by \<open>process.exit(1)\<close>. The
  log file is among the required entries, and the configuration has no entry for the
  number of concurrent downloads.
\<close>

theorem C8_exit_iff_five_fields:
  assumes "string_or_absent (instanceName c)" "string_or_absent (userName c)"
    "string_or_absent (password c)" "string_or_absent (attachmentFilter c)"
    "string_or_absent (logfile c)"
  shows "(fst (script c r) = []) =
           (instanceName c \<in> {JUndefined, JStr []} \<or> userName c \<in> {JUndefined, JStr []}
            \<or> password c \<in> {JUndefined, JStr []} \<or> attachmentFilter c \<in> {JUndefined, JStr []}
            \<or> logfile c \<in> {JUndefined, JStr []})
       \<and> (script c r = ([], Exited 1)) = (fst (script c r) = [])"
proof (cases "bad_configuration c")
  case True
  then have "script c r = ([], Exited 1)" by (simp add: script_def)
  moreover from True assms
  have "instanceName c \<in> {JUndefined, JStr []} \<or> userName c \<in> {JUndefined, JStr []}
        \<or> password c \<in> {JUndefined, JStr []} \<or> attachmentFilter c \<in> {JUndefined, JStr []}
        \<or> logfile c \<in> {JUndefined, JStr []}"
    by (auto simp: bad_configuration_def falsy_string_or_absent)
  ultimately show ?thesis by simp
next
  case False
  with assms have ok: "truthy (instanceName c)" "truthy (userName c)" "truthy (password c)"
    "truthy (attachmentFilter c)" "truthy (logfile c)"
    by (simp_all add: bad_configuration_def)
  from ok(5) assms(5) obtain s where l: "logfile c = JStr s" "s \<noteq> []"
    by (cases "logfile c") auto
  from False l have "fst (script c r) = [ListAttachments]"
    by (simp add: script_def File_transport_string)
  moreover from ok assms
  have "\<not> (instanceName c \<in> {JUndefined, JStr []} \<or> userName c \<in> {JUndefined, JStr []}
        \<or> password c \<in> {JUndefined, JStr []} \<or> attachmentFilter c \<in> {JUndefined, JStr []}
        \<or> logfile c \<in> {JUndefined, JStr []})"
    by auto
  ultimately show ?thesis by auto
qed

text \<open>An empty filter makes the script exit; with all five entries set it goes on.\<close>

theorem C8_exit_iff_five_fields_witness:
  "script \<lparr>instanceName = JStr ''dev'', userName = JStr ''u'', password = JStr ''p'',
           attachmentFilter = JStr [], logfile = JStr ''run.log''\<rparr> (reply_ok ''x'')
     = ([], Exited 1)
   \<and> fst (script \<lparr>instanceName = JStr ''dev'', userName = JStr ''u'', password = JStr ''p'',
             attachmentFilter = JStr ''f'', logfile = JStr ''run.log''\<rparr> (reply_ok ''x''))
     \<noteq> []"
proof -
  have a: "string_or_absent (instanceName \<lparr>instanceName = JStr ''dev'', userName = JStr ''u'',
             password = JStr ''p'', attachmentFilter = JStr f, logfile = JStr ''run.log''\<rparr>)"
    "string_or_absent (userName \<lparr>instanceName = JStr ''dev'', userName = JStr ''u'',
             password = JStr ''p'', attachmentFilter = JStr f, logfile = JStr ''run.log''\<rparr>)"
    "string_or_absent (password \<lparr>instanceName = JStr ''dev'', userName = JStr ''u'',
             password = JStr ''p'', attachmentFilter = JStr f, logfile = JStr ''run.log''\<rparr>)"
    "string_or_absent (attachmentFilter \<lparr>instanceName = JStr ''dev'', userName = JStr ''u'',
             password = JStr ''p'', attachmentFilter = JStr f, logfile = JStr ''run.log''\<rparr>)"
    "string_or_absent (logfile \<lparr>instanceName = JStr ''dev'', userName = JStr ''u'',
             password = JStr ''p'', attachmentFilter = JStr f, logfile = JStr ''run.log''\<rparr>)"
    for f
    by simp_all
  from C8_exit_iff_five_fields [OF a, of "[]" "reply_ok ''x''"]
    C8_exit_iff_five_fields [OF a, of "''f''" "reply_ok ''x''"]
  show ?thesis by simp
qed

text \<open>
  With the four other entries set and no \<open>logfile\<close>, the script exits with code 1 and
  makes no network call.
\<close>

theorem C8_logfile_counterexample:
  "script \<lparr>instanceName = JStr ''dev'', userName = JStr ''u'', password = JStr ''p'',
           attachmentFilter = JStr ''f'', logfile = JUndefined\<rparr> (reply_ok ''x'')
     = ([], Exited 1)"
  by (simp add: script_def bad_configuration_def)

text \<open>
  A log file entry that is truthy and no string passes the check and stops the script
  in the set-up of the logger, before any request.
\<close>

lemma logfile_not_a_string:
  "script \<lparr>instanceName = JStr ''dev'', userName = JStr ''u'', password = JStr ''p'',
           attachmentFilter = JStr ''f'', logfile = JNum 1\<rparr> (reply_ok ''x'')
     = ([], Died TypeError)"
  by (simp add: script_def bad_configuration_def File_transport_def)

lemma forEach_att_calls:
  "counter = length acc + 1 \<Longrightarrow> len = length acc + length rest \<Longrightarrow>
   forEach_att len rest acc counter = (if rest = [] then [] else [acc @ rest])"
proof (induction rest arbitrary: acc counter)
  case Nil
  then show ?case by simp
next
  case (Cons a rest)
  have "forEach_att len rest (acc @ [a]) (counter + 1)
          = (if rest = [] then [] else [(acc @ [a]) @ rest])"
    by (rule Cons.IH) (use Cons.prems in simp_all)
  with Cons.prems show ?case by (cases rest) (auto simp: Let_def)
qed

lemma onListReply_array:
  assumes "\<not> truthy (error r)" "statusCode r = 200" "body r = Some b"
    "get_prop b ''result'' = Inr (JArr xs)"
  shows "onListReply r = Callbacks (if xs = [] then [] else [xs])"
  using assms forEach_att_calls [of 1 "[]" "length xs" xs]
  by (simp add: onListReply_def JSON_parse_def)

text \<open>
  C10. When the configuration passes the check with a string as \<open>logfile\<close>, and the list
  query succeeds (no transport error, status 200, a body whose \<open>result\<close> is an array)
  with an empty array, the continuation of the listing task is not invoked and the
  dispatching task never starts. For a non-empty array it is invoked once, with all
  elements.
\<close>

theorem C10_empty_list_no_continuation:
  assumes "\<not> bad_configuration c" "logfile c = JStr l" "\<not> truthy (error r)"
    "statusCode r = 200" "body r = Some b" "get_prop b ''result'' = Inr (JArr xs)"
  shows "(xs = [] \<longrightarrow>
            onListReply r = Callbacks [] \<and> script c r = ([ListAttachments], Dispatched []))
       \<and> (xs \<noteq> [] \<longrightarrow>
            onListReply r = Callbacks [xs] \<and> script c r = ([ListAttachments], Dispatched [xs]))"
proof -
  from assms(1,2) have "l \<noteq> []" by (auto simp: bad_configuration_def)
  then have "File_transport (logfile c) = Inr ()"
    using assms(2) by (simp add: File_transport_string)
  with assms(1) onListReply_array [OF assms(3-6)] show ?thesis
    by (simp add: script_def)
qed

text \<open>The body \<open>{"result": []}\<close>.\<close>

theorem C10_empty_list_no_continuation_witness:
  "onListReply \<lparr>error = JNull, statusCode = 200, body = Some (JObj [(''result'', JArr [])])\<rparr>
     = Callbacks []
   \<and> script \<lparr>instanceName = JStr ''dev'', userName = JStr ''u'', password = JStr ''p'',
             attachmentFilter = JStr ''f'', logfile = JStr ''run.log''\<rparr>
        \<lparr>error = JNull, statusCode = 200, body = Some (JObj [(''result'', JArr [])])\<rparr>
     = ([ListAttachments], Dispatched [])"
proof -
  have c: "\<not> bad_configuration \<lparr>instanceName = JStr ''dev'', userName = JStr ''u'',
              password = JStr ''p'', attachmentFilter = JStr ''f'', logfile = JStr ''run.log''\<rparr>"
    by (simp add: bad_configuration_def)
  have l: "logfile \<lparr>instanceName = JStr ''dev'', userName = JStr ''u'',
              password = JStr ''p'', attachmentFilter = JStr ''f'', logfile = JStr ''run.log''\<rparr>
             = JStr ''run.log''"
    by simp
  have r: "\<not> truthy (error \<lparr>error = JNull, statusCode = 200,
                               body = Some (JObj [(''result'', JArr [])])\<rparr>)"
    "statusCode \<lparr>error = JNull, statusCode = 200,
                 body = Some (JObj [(''result'', JArr [])])\<rparr> = 200"
    "body \<lparr>error = JNull, statusCode = 200, body = Some (JObj [(''result'', JArr [])])\<rparr>
       = Some (JObj [(''result'', JArr [])])"
    "get_prop (JObj [(''result'', JArr [])]) ''result'' = Inr (JArr [])"
    by simp_all
  from C10_empty_list_no_continuation [OF c l r] show ?thesis by simp
qed


section \<open>Bounded dispatch\<close>

lemma replenish_within:
  "length run \<le> limit \<Longrightarrow> within_limit limit (replenish limit wait run)"
proof (induction wait arbitrary: run)
  case Nil
  then show ?case by (simp add: within_limit_def)
next
  case (Cons k rest)
  show ?case
  proof (cases "length run < limit")
    case True
    then have "length (run @ [k]) \<le> limit" by simp
    from Cons.IH [OF this] True show ?thesis by simp
  next
    case False
    with Cons.prems show ?thesis by (simp add: within_limit_def)
  qed
qed

lemma iterateeCallback_within:
  assumes "within_limit limit s"
  shows "within_limit limit (iterateeCallback limit k s)"
proof (cases s)
  case (Pair wait run)
  show ?thesis
  proof (cases "k \<in> set run")
    case True
    from assms Pair have "length run \<le> limit" by (simp add: within_limit_def)
    then have "length (remove1 k run) \<le> limit"
      using True by (simp add: length_remove1)
    from replenish_within [OF this] True Pair show ?thesis
      by (simp add: iterateeCallback_def)
  next
    case False
    with assms Pair show ?thesis by (simp add: iterateeCallback_def)
  qed
qed

lemma dispatch_within: "within_limit 5 (dispatch n ks)"
proof (induction ks rule: rev_induct)
  case Nil
  show ?case by (simp add: dispatch_def eachOfLimit_def replenish_within)
next
  case (snoc k ks)
  then show ?case
    using iterateeCallback_within [of 5 "dispatch n ks" k] by (simp add: dispatch_def)
qed

text \<open>
  C9. Whatever the number of attachments and whichever handlers have invoked their
  callbacks so far, at most 5 handlers are under way, and attachments are still waiting
  only while exactly 5 are.
\<close>

theorem C9_at_most_five_running:
  "dispatch n ks = (wait, run) \<Longrightarrow> length run \<le> 5 \<and> (wait \<noteq> [] \<longrightarrow> length run = 5)"
  using dispatch_within [of n ks] by (simp add: within_limit_def)

lemma dispatch_7_start: "dispatch 7 [] = ([5, 6], [0, 1, 2, 3, 4])"
  by code_simp

text \<open>Seven attachments: five start at once, two wait.\<close>

theorem C9_at_most_five_running_witness:
  "dispatch 7 [] = ([5, 6], [0, 1, 2, 3, 4]) \<and> [5, 6 :: nat] \<noteq> []
   \<and> length [0, 1, 2, 3, 4 :: nat] = 5"
  using C9_at_most_five_running [OF dispatch_7_start] dispatch_7_start by simp

end
